theory Spec2Isabelle
  imports Main "HOL-Library.Word" "HOL-Library.Multiset" "HOL-Library.AList"
begin

section \<open>Data model of package health\<close>

text \<open>
  Modelled from the spec: the declaration of \<open>Status\<close> is not part of the available
  sources. The spec enumerates the three values in severity order Green, Yellow, Red, and
  the zero value of the type (what \<open>var status Status\<close> holds) is Green.
\<close>

datatype Status = Green | Yellow | Red

text \<open>
  \<open>time.Duration\<close> is a signed 64-bit count of nanoseconds: arithmetic wraps, comparisons
  are signed (\<open><s\<close>). An instant (\<open>time.Time\<close>) is read as its position on the
  nanosecond time line; \<open>Time.Add\<close> moves it by the signed value of the duration.
\<close>

type_synonym Duration = "64 word"

type_synonym Time = int

definition Add :: "Time \<Rightarrow> Duration \<Rightarrow> Time" where
  "Add t d = t + sint d"

text \<open>
  Modelled from the spec: \<open>Check\<close>, \<open>CheckerOpts\<close> and the engine-wide \<open>Opts\<close> are
  declared outside the available sources; the fields are the ones that service.go and
  its callers read.
\<close>

record Check =
  ID :: string
  Description :: string
  RedImpact :: string
  YellowImpact :: string

record CheckerOpts =
  Timeout :: Duration
  RunInterval :: Duration

record Opts =
  MaxCheckParallelism :: "8 word"
  DefaultTimeout :: Duration
  DefaultRunInterval :: Duration
  MinRunInterval :: Duration
  MaxTimeout :: Duration

text \<open>
  Go's \<open>error\<close> is \<open>err option\<close>, \<open>nil\<close> being \<open>None\<close>. The constructors are the
  error values that service.go builds or refers to: the four package-level sentinels,
  \<open>errors.New\<close>, the three \<open>fmt.Errorf\<close> formats with their arguments, and the
  combined error of \<open>multierr\<close>. An error returned by a raw check is any value of the type.
\<close>

datatype err =
    ErrTimeout
  | ErrNilChecker
  | ErrRunIntervalTooFrequent
  | ErrRunTimeoutTooHigh
  | errors_New string
  | health_check_failed string Status
  | invalid_health_checker_opts string CheckerOpts
  | health_check_is_already_registered string
  | multiError "err list"

fun errors_of :: "err \<Rightarrow> err list" where
  "errors_of (multiError es) = es"
| "errors_of e = [e]"

text \<open>
  \<open>multierr.Append\<close>: a nil side yields the other side unchanged; two errors are combined
  into one, a combined error on either side being flattened.
\<close>

fun Append :: "err option \<Rightarrow> err option \<Rightarrow> err option" where
  "Append None right = right"
| "Append (Some l) None = Some l"
| "Append (Some l) (Some r) = Some (multiError (errors_of l @ errors_of r))"

record Result =
  ID :: string
  Status :: Status
  Err :: "err option"
  Time :: Time
  Duration :: Duration

text \<open>
  A raw check \<open>func() (Status, error)\<close> is read as a function of the instant at which it
  is started. One invocation of a wrapped Checker is resolved by its environment: the
  instant the raw check starts, the time it is measured to take, whether the \<open>select\<close>
  takes the timer case, and the instant read in that case.
\<close>

type_synonym CheckerFunc = "Time \<Rightarrow> Status \<times> err option"

record invocation =
  start :: Time
  elapsed :: Duration
  timed_out :: bool
  now :: Time

text \<open>
  A Checker returns its Result and hands the same value to a goroutine that offers it on
  \<open>s.results\<close>, racing the stop signal: the second component lists the values so offered.
\<close>

type_synonym Checker = "invocation \<Rightarrow> Result \<times> Result list"

record RegisteredCheck =
  Check :: Check
  CheckerOpts :: CheckerOpts
  Checker :: Checker

record registerRequest =
  check :: Check
  opts :: CheckerOpts
  checker :: "CheckerFunc option"

text \<open>
  The coordinator's state. Channels handed to subscribers are identified by numbers.
  \<open>stop\<close> holds whether the stop channel is closed. Go maps are association lists
  (\<open>runResults\<close>, \<open>subscriptionsForCheckResults\<close>) or lists of keys (the two maps
  to \<open>struct{}\<close>); \<open>runSemaphore\<close> counts the available tokens.
\<close>

record service =
  Opts :: Opts
  checks :: "RegisteredCheck list"
  stop :: bool
  subscriptionsForRegisteredChecks :: "nat list"
  subscriptionsForCheckResults :: "(nat \<times> (Result \<Rightarrow> bool)) list"
  subscriptionsForOverallHealthChanges :: "nat list"
  overallHealth :: Status
  runSemaphore :: nat
  runResults :: "(string \<times> Result) list"

text \<open>
  What a handler leaves behind besides the new state: goroutines it starts and values it
  offers on a channel. Every send listed here races the stop signal, as in the source.
\<close>

datatype effect =
    GoSchedule string Checker Duration
  | SendRegisteredCheck nat RegisteredCheck
  | SendResult nat Result
  | SendStatus nat Status
  | ReplyError "err option"
  | ReplyRegisteredChecks "RegisteredCheck list"
  | ReplyCheckResults "Result list"
  | ReplyOverallHealth Status
  | ReplyRegisteredCheckChan nat
  | ReplyResultChan nat
  | ReplyStatusChan nat "Status list"

text \<open>The cases of the coordinator's \<open>select\<close>, with the value received.\<close>

datatype selected =
    SelStop
  | SelRegister registerRequest
  | SelResult Result
  | SelGetRegisteredChecks
  | SelGetCheckResults "(Result \<Rightarrow> bool) option"
  | SelSubscribeForRegisteredChecks
  | SelSubscribeForCheckResults "(Result \<Rightarrow> bool) option"
  | SelGetOverallHealth
  | SelSubscribeForOverallHealthChanges

section \<open>The service\<close>

definition newService :: "Opts \<Rightarrow> service" where
  "newService os =
     \<lparr>Opts = os, checks = [], stop = False,
      subscriptionsForRegisteredChecks = [],
      subscriptionsForCheckResults = [],
      subscriptionsForOverallHealthChanges = [],
      overallHealth = Green,
      runSemaphore = unat (MaxCheckParallelism os),
      runResults = []\<rparr>"

text \<open>\<open>make(chan ...)\<close>: a channel that is none of the existing ones.\<close>

definition new_chan :: "nat list \<Rightarrow> nat" where
  "new_chan cs = Suc (fold max cs 0)"

subsection \<open>OverallHealth\<close>

text \<open>
  The loop of \<open>OverallHealth\<close> over the results in the order \<open>range\<close> visits them:
  Yellow is remembered, Red returns at once.
\<close>

fun OverallHealth_range :: "Status \<Rightarrow> Result list \<Rightarrow> Status" where
  "OverallHealth_range status [] = status"
| "OverallHealth_range status (result # rest) =
     (case Status result of
        Yellow \<Rightarrow> OverallHealth_range (Status result) rest
      | Red \<Rightarrow> Red
      | Green \<Rightarrow> OverallHealth_range status rest)"

definition OverallHealth :: "service \<Rightarrow> Status" where
  "OverallHealth s = OverallHealth_range Green (map snd (runResults s))"

subsection \<open>Publishing\<close>

definition publishResult :: "service \<Rightarrow> Result \<Rightarrow> effect list" where
  "publishResult s result =
     map (\<lambda>(ch, f). SendResult ch result)
       (filter (\<lambda>(ch, f). f result) (subscriptionsForCheckResults s))"

definition updateOverallHealth :: "service \<Rightarrow> service \<times> effect list" where
  "updateOverallHealth s =
     (let previous = overallHealth s;
          s' = s\<lparr>overallHealth := OverallHealth s\<rparr>
      in if previous = overallHealth s' then (s', [])
         else (s', map (\<lambda>ch. SendStatus ch (overallHealth s'))
                     (subscriptionsForOverallHealthChanges s')))"

subsection \<open>Shutdown\<close>

text \<open>Closing a channel that is already closed panics: \<open>None\<close>.\<close>

definition close_chan :: "bool \<Rightarrow> bool option" where
  "close_chan closed = (if closed then None else Some True)"

text \<open>
  \<open>TriggerShutdown\<close> runs on its caller's goroutine in two steps that nothing
  synchronises: the \<open>select\<close>, which returns when the stop channel is closed and
  takes the default case otherwise, and then \<open>close(s.stop)\<close>. A caller is about to
  take the first step or the second, or has returned, or has panicked.
\<close>

datatype caller = AtSelect | AtClose | Returned | Panicked

fun TriggerShutdown_step :: "service \<Rightarrow> caller \<Rightarrow> service \<times> caller" where
  "TriggerShutdown_step s AtSelect = (if stop s then (s, Returned) else (s, AtClose))"
| "TriggerShutdown_step s AtClose =
     (case close_chan (stop s) of
        None \<Rightarrow> (s, Panicked)
      | Some c \<Rightarrow> (s\<lparr>stop := c\<rparr>, Returned))"
| "TriggerShutdown_step s Returned = (s, Returned)"
| "TriggerShutdown_step s Panicked = (s, Panicked)"

text \<open>
  One call whose two steps run with no other caller in between; \<open>None\<close> when it
  panics.
\<close>

definition TriggerShutdown :: "service \<Rightarrow> service option" where
  "TriggerShutdown s =
     (case TriggerShutdown_step s AtSelect of
        (s1, c1) \<Rightarrow>
          (case TriggerShutdown_step s1 c1 of
             (s2, c2) \<Rightarrow> (if c2 = Panicked then None else Some s2)))"

text \<open>
  Several callers on the same service: the schedule names, step by step, the caller
  that moves next. A number that names no caller is passed over.
\<close>

fun TriggerShutdown_calls ::
    "service \<Rightarrow> caller list \<Rightarrow> nat list \<Rightarrow> service \<times> caller list" where
  "TriggerShutdown_calls s callers [] = (s, callers)"
| "TriggerShutdown_calls s callers (i # sched) =
     (if i < length callers
      then TriggerShutdown_calls
             (fst (TriggerShutdown_step s (callers ! i)))
             (callers[i := snd (TriggerShutdown_step s (callers ! i))])
             sched
      else TriggerShutdown_calls s callers sched)"

subsection \<open>Register\<close>

definition healthCheckFailure :: "string \<Rightarrow> Status \<Rightarrow> err option \<Rightarrow> err option" where
  "healthCheckFailure cid status e =
     (if status = Green then None
      else Append (Some (health_check_failed cid status)) e)"

definition WithTimeout :: "string \<Rightarrow> CheckerFunc \<Rightarrow> Duration \<Rightarrow> Checker" where
  "WithTimeout cid chk timeout iv =
     (let result =
        (if timed_out iv
         then \<lparr>ID = cid, Status = Red,
               Err = healthCheckFailure cid Red (Some ErrTimeout),
               Time = Add (now iv) (timeout * - 1),
               Duration = timeout\<rparr>
         else (case chk (start iv) of
                 (status, e) \<Rightarrow>
                   \<lparr>ID = cid, Status = status,
                    Err = healthCheckFailure cid status e,
                    Time = start iv,
                    Duration = elapsed iv\<rparr>))
      in (result, [result]))"

definition ApplyDefaultOpts :: "service \<Rightarrow> CheckerOpts \<Rightarrow> CheckerOpts" where
  "ApplyDefaultOpts s opts0 =
     (let opts1 = (if Timeout opts0 = 0
                   then opts0\<lparr>Timeout := DefaultTimeout (Opts s)\<rparr> else opts0);
          opts2 = (if RunInterval opts1 = 0
                   then opts1\<lparr>RunInterval := DefaultRunInterval (Opts s)\<rparr> else opts1)
      in opts2)"

definition ValidateOpts :: "service \<Rightarrow> CheckerOpts \<Rightarrow> err option" where
  "ValidateOpts s os =
     (let err1 = (if RunInterval os <s MinRunInterval (Opts s)
                  then Some ErrRunIntervalTooFrequent else None);
          err2 = (if MaxTimeout (Opts s) <s Timeout os
                  then Append err1 (Some ErrRunTimeoutTooHigh) else err1)
      in err2)"

definition SendRegisteredCheckToSubscribers ::
    "service \<Rightarrow> RegisteredCheck \<Rightarrow> effect list" where
  "SendRegisteredCheckToSubscribers s rc =
     map (\<lambda>ch. SendRegisteredCheck ch rc) (subscriptionsForRegisteredChecks s)"

definition RegisteredCheck :: "service \<Rightarrow> string \<Rightarrow> RegisteredCheck option" where
  "RegisteredCheck s cid = find (\<lambda>c. Check.ID (Check c) = cid) (checks s)"

definition Register :: "service \<Rightarrow> registerRequest \<Rightarrow> err option \<times> service \<times> effect list" where
  "Register s req =
     (case checker req of
        None \<Rightarrow>
          (Append (Some (errors_New (Check.ID (check req)))) (Some ErrNilChecker), s, [])
      | Some chk \<Rightarrow>
          (let os = ApplyDefaultOpts s (opts req) in
           case ValidateOpts s os of
             Some e \<Rightarrow>
               (Append (Some (invalid_health_checker_opts (Check.ID (check req)) os)) (Some e),
                s, [])
           | None \<Rightarrow>
               (case RegisteredCheck s (Check.ID (check req)) of
                  Some c \<Rightarrow>
                    (Some (health_check_is_already_registered (Check.ID (check req))), s, [])
                | None \<Rightarrow>
                    (let registeredCheck =
                           \<lparr>Check = check req, CheckerOpts = os,
                            Checker = WithTimeout (Check.ID (check req)) chk (Timeout os)\<rparr>
                     in (None,
                         s\<lparr>checks := checks s @ [registeredCheck]\<rparr>,
                         GoSchedule (Check.ID (Check registeredCheck))
                             (Checker registeredCheck)
                             (RunInterval (CheckerOpts registeredCheck))
                           # SendRegisteredCheckToSubscribers s registeredCheck)))))"

subsection \<open>Snapshots and subscriptions\<close>

definition SendCheckResults :: "service \<Rightarrow> (Result \<Rightarrow> bool) option \<Rightarrow> effect list" where
  "SendCheckResults s flt =
     [ReplyCheckResults
        (case flt of
           None \<Rightarrow> map snd (runResults s)
         | Some f \<Rightarrow> filter f (map snd (runResults s)))]"

definition SendRegisteredChecks :: "service \<Rightarrow> effect list" where
  "SendRegisteredChecks s = [ReplyRegisteredChecks (checks s)]"

definition SubscribeForRegisteredChecks :: "service \<Rightarrow> service \<times> effect list" where
  "SubscribeForRegisteredChecks s =
     (let ch = new_chan (subscriptionsForRegisteredChecks s)
      in (s\<lparr>subscriptionsForRegisteredChecks :=
               List.insert ch (subscriptionsForRegisteredChecks s)\<rparr>,
          [ReplyRegisteredCheckChan ch]))"

definition SubscribeForCheckResults ::
    "service \<Rightarrow> (Result \<Rightarrow> bool) option \<Rightarrow> service \<times> effect list" where
  "SubscribeForCheckResults s flt =
     (let ch = new_chan (map fst (subscriptionsForCheckResults s))
      in (s\<lparr>subscriptionsForCheckResults :=
               AList.update ch (case flt of Some f \<Rightarrow> f | None \<Rightarrow> (\<lambda>r. True))
                 (subscriptionsForCheckResults s)\<rparr>,
          [ReplyResultChan ch]))"

text \<open>
  The new channel has capacity 1 and already holds \<open>s.overallHealth\<close> when it is
  offered on the reply channel: \<open>ReplyStatusChan ch buf\<close> carries that buffer.
\<close>

definition SubscribeForOverallHealthChanges :: "service \<Rightarrow> service \<times> effect list" where
  "SubscribeForOverallHealthChanges s =
     (let ch = new_chan (subscriptionsForOverallHealthChanges s)
      in (s\<lparr>subscriptionsForOverallHealthChanges :=
               List.insert ch (subscriptionsForOverallHealthChanges s)\<rparr>,
          [ReplyStatusChan ch [overallHealth s]]))"

subsection \<open>The coordinator loop\<close>

text \<open>The body of one case of \<open>run\<close> other than the stop case.\<close>

fun handle :: "service \<Rightarrow> selected \<Rightarrow> service \<times> effect list" where
  "handle s SelStop = (s, [])"
| "handle s (SelRegister req) =
     (case Register s req of (e, s', out) \<Rightarrow> (s', out @ [ReplyError e]))"
| "handle s (SelResult result) =
     (let s1 = s\<lparr>runResults := AList.update (ID result) result (runResults s)\<rparr>
      in case updateOverallHealth s1 of
           (s2, out) \<Rightarrow> (s2, out @ publishResult s2 result))"
| "handle s SelGetRegisteredChecks = (s, SendRegisteredChecks s)"
| "handle s (SelGetCheckResults flt) = (s, SendCheckResults s flt)"
| "handle s SelSubscribeForRegisteredChecks = SubscribeForRegisteredChecks s"
| "handle s (SelSubscribeForCheckResults flt) = SubscribeForCheckResults s flt"
| "handle s SelGetOverallHealth = (s, [ReplyOverallHealth (overallHealth s)])"
| "handle s SelSubscribeForOverallHealthChanges = SubscribeForOverallHealthChanges s"

text \<open>
  \<open>run\<close> over the sequence of cases its \<open>select\<close> takes. The result says whether the
  loop has returned. The stop case can only be taken once the stop channel is closed; an
  entry for it before that is passed over. After the loop has returned nothing further
  is processed.
\<close>

fun run :: "service \<Rightarrow> selected list \<Rightarrow> service \<times> effect list \<times> bool" where
  "run s [] = (s, [], False)"
| "run s (SelStop # cs) = (if stop s then (s, [], True) else run s cs)"
| "run s (c # cs) =
     (case handle s c of
        (s', out) \<Rightarrow> (case run s' cs of (s'', out', r) \<Rightarrow> (s'', out @ out', r)))"

section \<open>Concrete inputs\<close>

definition ex_opts :: Opts where
  "ex_opts =
     \<lparr>MaxCheckParallelism = 2, DefaultTimeout = 5, DefaultRunInterval = 15,
      MinRunInterval = 10, MaxTimeout = 30\<rparr>"

definition ex_check :: Check where
  "ex_check =
     \<lparr>Check.ID = ''db'', Description = ''database'', RedImpact = ''down'',
      YellowImpact = ''slow''\<rparr>"

definition always_green :: CheckerFunc where
  "always_green t = (Green, None)"

definition green_with_error :: CheckerFunc where
  "green_with_error t = (Green, Some (errors_New ''warn''))"

definition ex_result :: "string \<Rightarrow> Status \<Rightarrow> Result" where
  "ex_result cid st =
     \<lparr>ID = cid, Status = st, Err = healthCheckFailure cid st None, Time = 0, Duration = 1\<rparr>"


definition ex_timed_out :: invocation where
  "ex_timed_out = \<lparr>start = 100, elapsed = 7, timed_out = True, now = 105\<rparr>"

definition ex_completed :: invocation where
  "ex_completed = \<lparr>start = 100, elapsed = 3, timed_out = False, now = 0\<rparr>"

definition ex_req :: registerRequest where
  "ex_req = \<lparr>check = ex_check, opts = \<lparr>Timeout = 0, RunInterval = 0\<rparr>,
             checker = Some always_green\<rparr>"

definition ex_req_nil :: registerRequest where
  "ex_req_nil = \<lparr>check = ex_check, opts = \<lparr>Timeout = 0, RunInterval = 1\<rparr>,
                 checker = None\<rparr>"

definition ex_req_bad :: registerRequest where
  "ex_req_bad = \<lparr>check = ex_check, opts = \<lparr>Timeout = 40, RunInterval = 1\<rparr>,
                 checker = Some always_green\<rparr>"

definition ex_req_min :: registerRequest where
  "ex_req_min = \<lparr>check = ex_check, opts = \<lparr>Timeout = - (2 ^ 63), RunInterval = 0\<rparr>,
                 checker = Some always_green\<rparr>"

text \<open>A service in which \<open>ex_check\<close> has been registered.\<close>

definition ex_service :: service where
  "ex_service = fst (snd (Register (newService ex_opts) ex_req))"

section \<open>Overall health\<close>

lemma OverallHealth_range_char:
  "OverallHealth_range st rs =
     (if Red \<in> set (map Status rs) then Red
      else if Yellow \<in> set (map Status rs) then Yellow
      else st)"
  by (induction rs arbitrary: st) (auto split: Status.splits)

text \<open>
  C1. Whatever the store holds, \<open>OverallHealth\<close> is Red if some stored Result is Red,
  else Yellow if some stored Result is Yellow, else Green; with nothing stored it is
  Green; and two stores holding the same Results in a different order (the order in which
  \<open>range\<close> visits them) give the same value.
\<close>

theorem OverallHealth_severity:
  "OverallHealth s =
     (if Red \<in> set (map (Status \<circ> snd) (runResults s)) then Red
      else if Yellow \<in> set (map (Status \<circ> snd) (runResults s)) then Yellow
      else Green)
   \<and> OverallHealth (s\<lparr>runResults := []\<rparr>) = Green
   \<and> (mset (runResults s) = mset (runResults s') \<longrightarrow> OverallHealth s = OverallHealth s')"
proof (intro conjI impI)
  show "OverallHealth s =
     (if Red \<in> set (map (Status \<circ> snd) (runResults s)) then Red
      else if Yellow \<in> set (map (Status \<circ> snd) (runResults s)) then Yellow
      else Green)"
    by (simp add: OverallHealth_def OverallHealth_range_char image_image)
  show "OverallHealth (s\<lparr>runResults := []\<rparr>) = Green"
    by (simp add: OverallHealth_def)
  assume "mset (runResults s) = mset (runResults s')"
  then have "set (runResults s) = set (runResults s')"
    by (rule mset_eq_setD)
  then show "OverallHealth s = OverallHealth s'"
    by (simp add: OverallHealth_def OverallHealth_range_char image_image)
qed

theorem OverallHealth_severity_witness:
  "mset (runResults ((newService ex_opts)
        \<lparr>runResults := [(''a'', ex_result ''a'' Yellow), (''b'', ex_result ''b'' Red)]\<rparr>))
     = mset (runResults ((newService ex_opts)
        \<lparr>runResults := [(''b'', ex_result ''b'' Red), (''a'', ex_result ''a'' Yellow)]\<rparr>))
   \<and> OverallHealth ((newService ex_opts)
        \<lparr>runResults := [(''a'', ex_result ''a'' Yellow), (''b'', ex_result ''b'' Red)]\<rparr>)
     = Red
   \<and> OverallHealth ((newService ex_opts)
        \<lparr>runResults := [(''b'', ex_result ''b'' Red), (''a'', ex_result ''a'' Yellow)]\<rparr>)
     = Red"
  using OverallHealth_severity
    [of "(newService ex_opts)
           \<lparr>runResults := [(''a'', ex_result ''a'' Yellow), (''b'', ex_result ''b'' Red)]\<rparr>"
        "(newService ex_opts)
           \<lparr>runResults := [(''b'', ex_result ''b'' Red), (''a'', ex_result ''a'' Yellow)]\<rparr>"]
  by (simp add: ex_result_def OverallHealth_def add_mset_commute)

section \<open>The timeout wrapper\<close>


text \<open>
  Negating a Duration gives the negated signed value, except at the least 64-bit value,
  which negation maps to itself.
\<close>

lemma sint_neg_64:
  assumes "(w :: 64 word) \<noteq> - (2 ^ 63)"
  shows "sint (- w) = - sint w"
proof -
  have ne: "sint w \<noteq> - (2 ^ 63)"
  proof
    assume "sint w = - (2 ^ 63)"
    then have "(of_int (sint w) :: 64 word) = of_int (- (2 ^ 63))" by simp
    then have "w = - (2 ^ 63)" by simp
    with assms show False by simp
  qed
  have "- (2 ^ 63) \<le> sint w" "sint w < 2 ^ 63"
    using sint_ge [of w] sint_lt [of w] by simp_all
  with ne have "- (2 ^ 63) \<le> - sint w" "- sint w < 2 ^ 63" by simp_all
  then have "signed_take_bit 63 (- sint w) = - sint w"
    by (simp add: signed_take_bit_int_eq_self)
  then show ?thesis by (simp add: sint_word_ariths)
qed



text \<open>
  In the timer case the Result is Red with the synthesized failure combined with
  \<open>ErrTimeout\<close>, its Duration is the timeout, and neither the raw check nor its start
  or running time enter it: for every timeout.
\<close>

lemma WithTimeout_timer_case:
  "ID (fst (WithTimeout cid chk timeout (iv\<lparr>timed_out := True\<rparr>))) = cid
   \<and> Status (fst (WithTimeout cid chk timeout (iv\<lparr>timed_out := True\<rparr>))) = Red
   \<and> Err (fst (WithTimeout cid chk timeout (iv\<lparr>timed_out := True\<rparr>)))
       = Some (multiError [health_check_failed cid Red, ErrTimeout])
   \<and> Duration (fst (WithTimeout cid chk timeout (iv\<lparr>timed_out := True\<rparr>))) = timeout
   \<and> fst (WithTimeout cid chk timeout (iv\<lparr>timed_out := True\<rparr>))
       = fst (WithTimeout cid chk' timeout
                (iv\<lparr>timed_out := True, start := t', elapsed := d'\<rparr>))"
  by (simp add: WithTimeout_def Let_def healthCheckFailure_def)

text \<open>
  Its Time is the instant read minus the timeout for every timeout but the least 64-bit
  Duration.
\<close>

lemma WithTimeout_timer_case_Time:
  assumes "timeout \<noteq> - (2 ^ 63)"
  shows "Time (fst (WithTimeout cid chk timeout (iv\<lparr>timed_out := True\<rparr>)))
           = now iv - sint timeout"
  using sint_neg_64 [OF assms]
  by (simp add: WithTimeout_def Let_def Add_def)

text \<open>
  C3. In the timer case the Result is to be Red, carry the timeout error, have the
  timeout as its Duration and the current instant minus the timeout as its Time. The
  code misses the last for the timeout \<open>- 2 ^ 63\<close>, which \<open>Register\<close>
  accepts: \<open>timeout * -1\<close> wraps to the same value, so the Time of the Result lies
  \<open>2 ^ 63\<close> nanoseconds before the instant read, where the instant minus the timeout
  lies \<open>2 ^ 63\<close> nanoseconds after it.
\<close>

theorem WithTimeout_timeout_Time_wraps:
  "fst (Register (newService ex_opts) ex_req_min) = None
   \<and> map (Timeout \<circ> CheckerOpts) (checks (fst (snd (Register (newService ex_opts) ex_req_min))))
       = [- (2 ^ 63)]
   \<and> fst (WithTimeout ''db'' always_green (- (2 ^ 63)) ex_timed_out)
       = \<lparr>ID = ''db'', Status = Red,
          Err = Some (multiError [health_check_failed ''db'' Red, ErrTimeout]),
          Time = now ex_timed_out - 2 ^ 63, Duration = - (2 ^ 63)\<rparr>
   \<and> Time (fst (WithTimeout ''db'' always_green (- (2 ^ 63)) ex_timed_out))
       \<noteq> now ex_timed_out - sint (- (2 ^ 63) :: Duration)"
proof (intro conjI)
  have v: "ValidateOpts (newService ex_opts)
             (ApplyDefaultOpts (newService ex_opts) (opts ex_req_min)) = None"
    by (simp add: ValidateOpts_def ApplyDefaultOpts_def newService_def ex_opts_def
          ex_req_min_def Let_def word_sless_alt)
  have r: "RegisteredCheck (newService ex_opts) (Check.ID (check ex_req_min)) = None"
    by (simp add: RegisteredCheck_def newService_def)
  have c: "checker ex_req_min = Some always_green"
    by (simp add: ex_req_min_def)
  show "fst (Register (newService ex_opts) ex_req_min) = None"
    by (simp add: Register_def Let_def v r c)
  have e: "checks (newService ex_opts) = []"
    by (simp add: newService_def)
  have "Timeout (ApplyDefaultOpts (newService ex_opts) (opts ex_req_min)) = - (2 ^ 63)"
    by (simp add: ApplyDefaultOpts_def ex_req_min_def Let_def)
  then show "map (Timeout \<circ> CheckerOpts)
               (checks (fst (snd (Register (newService ex_opts) ex_req_min))))
       = [- (2 ^ 63)]"
    by (simp add: Register_def Let_def v r c e)
  show "fst (WithTimeout ''db'' always_green (- (2 ^ 63)) ex_timed_out)
       = \<lparr>ID = ''db'', Status = Red,
          Err = Some (multiError [health_check_failed ''db'' Red, ErrTimeout]),
          Time = now ex_timed_out - 2 ^ 63, Duration = - (2 ^ 63)\<rparr>"
    by (simp add: WithTimeout_def Let_def ex_timed_out_def Add_def healthCheckFailure_def)
  show "Time (fst (WithTimeout ''db'' always_green (- (2 ^ 63)) ex_timed_out))
       \<noteq> now ex_timed_out - sint (- (2 ^ 63) :: Duration)"
    by (simp add: WithTimeout_def Let_def ex_timed_out_def Add_def)
qed

text \<open>
  C10. When the raw check returns Green together with an error and the \<open>select\<close>
  takes the reply case, the Result returned, which is also the one handed on to
  \<open>s.results\<close>, has \<open>Err = nil\<close>: the check's error appears nowhere in it.
\<close>

theorem Green_error_discarded:
  assumes "chk (start iv) = (Green, Some e)" and "\<not> timed_out iv"
  shows "WithTimeout cid chk timeout iv
           = (\<lparr>ID = cid, Status = Green, Err = None, Time = start iv, Duration = elapsed iv\<rparr>,
              [\<lparr>ID = cid, Status = Green, Err = None, Time = start iv,
                Duration = elapsed iv\<rparr>])"
  using assms by (simp add: WithTimeout_def Let_def healthCheckFailure_def)

theorem Green_error_discarded_witness:
  "green_with_error (start ex_completed) = (Green, Some (errors_New ''warn''))
   \<and> \<not> timed_out ex_completed
   \<and> Err (fst (WithTimeout ''db'' green_with_error 5 ex_completed)) = None"
  using Green_error_discarded [of green_with_error ex_completed "errors_New ''warn''" "''db''" 5]
  by (simp add: green_with_error_def ex_completed_def)

section \<open>Registration\<close>

lemma ex_service_checks:
  "checks ex_service =
     [\<lparr>Check = ex_check, CheckerOpts = \<lparr>Timeout = 5, RunInterval = 15\<rparr>,
       Checker = WithTimeout ''db'' always_green 5\<rparr>]"
  by (simp add: ex_service_def Register_def ex_req_def newService_def ex_opts_def
        ApplyDefaultOpts_def ValidateOpts_def RegisteredCheck_def Let_def ex_check_def)

lemma ex_service_Opts: "Opts ex_service = ex_opts"
  by (simp add: ex_service_def Register_def ex_req_def newService_def ex_opts_def
        ApplyDefaultOpts_def ValidateOpts_def RegisteredCheck_def Let_def ex_check_def)

lemma RegisteredCheck_None_iff:
  "(RegisteredCheck s cid = None) = (cid \<notin> set (map (Check.ID \<circ> Check) (checks s)))"
  by (auto simp: RegisteredCheck_def find_None_iff)

text \<open>
  C8. A request without a checker function is rejected with the error that combines the
  check's ID with \<open>ErrNilChecker\<close>, whatever its options; the service is left as it
  was and nothing is started or sent.
\<close>

theorem Register_nil_checker:
  "Register s (req\<lparr>checker := None\<rparr>)
     = (Some (multiError [errors_New (Check.ID (check req)), ErrNilChecker]), s, [])"
  by (simp add: Register_def)

text \<open>
  C4, as amended. A request whose check ID is already in the table fails and leaves the
  service as it was, with nothing started or sent. The error is the
  "already registered" error when the request has a checker function and its effective
  options pass validation.
\<close>

theorem Register_duplicate:
  assumes "Check.ID (check req) \<in> set (map (Check.ID \<circ> Check) (checks s))"
  shows "fst (Register s req) \<noteq> None \<and> snd (Register s req) = (s, [])
         \<and> (checker req \<noteq> None \<and> ValidateOpts s (ApplyDefaultOpts s (opts req)) = None
              \<longrightarrow> fst (Register s req)
                    = Some (health_check_is_already_registered (Check.ID (check req))))"
proof -
  from assms obtain c where "RegisteredCheck s (Check.ID (check req)) = Some c"
    using RegisteredCheck_None_iff [of s "Check.ID (check req)"] by auto
  then show ?thesis
    by (auto simp: Register_def Let_def split: option.splits)
qed

theorem Register_duplicate_witness:
  "Check.ID (check ex_req) \<in> set (map (Check.ID \<circ> Check) (checks ex_service))
   \<and> checker ex_req \<noteq> None
   \<and> ValidateOpts ex_service (ApplyDefaultOpts ex_service (opts ex_req)) = None
   \<and> Register ex_service ex_req
       = (Some (health_check_is_already_registered ''db''), ex_service, [])"
proof -
  have h: "Check.ID (check ex_req) \<in> set (map (Check.ID \<circ> Check) (checks ex_service))"
    by (simp add: ex_service_checks ex_req_def)
  have v: "ValidateOpts ex_service (ApplyDefaultOpts ex_service (opts ex_req)) = None"
    by (simp add: ValidateOpts_def ApplyDefaultOpts_def ex_service_Opts ex_opts_def ex_req_def
          Let_def)
  have c: "checker ex_req \<noteq> None" by (simp add: ex_req_def)
  from Register_duplicate [OF h] v c
  have "fst (Register ex_service ex_req) = Some (health_check_is_already_registered ''db'')"
       "snd (Register ex_service ex_req) = (ex_service, [])"
    by (simp_all add: ex_req_def ex_check_def)
  then have "Register ex_service ex_req
       = (Some (health_check_is_already_registered ''db''), ex_service, [])"
    by (metis prod.collapse)
  with h v c show ?thesis by simp
qed

text \<open>
  C4 as stated fails: a request for the registered ID \<open>''db''\<close> that has no checker
  function is rejected by the earlier guard, with the nil-checker error and not the
  "already registered" one.
\<close>

theorem Register_duplicate_counterexample:
  "Check.ID (check ex_req_nil) \<in> set (map (Check.ID \<circ> Check) (checks ex_service))
   \<and> fst (Register ex_service ex_req_nil)
       = Some (multiError [errors_New ''db'', ErrNilChecker])
   \<and> fst (Register ex_service ex_req_nil) \<noteq> Some (health_check_is_already_registered ''db'')"
  by (simp add: ex_service_checks Register_def ex_req_nil_def ex_check_def)

text \<open>
  C5, as amended. For a request that has a checker function: the effective options are
  the requested ones with a zero Timeout and a zero RunInterval replaced by the engine's
  defaults; if the effective RunInterval is below the minimum or the effective Timeout
  above the maximum, registration fails with an error that holds
  \<open>ErrRunIntervalTooFrequent\<close> for the first violation and \<open>ErrRunTimeoutTooHigh\<close>
  for the second (both when both hold), after the "invalid opts" error; the service is
  left as it was and nothing is started or sent.
\<close>

theorem Register_invalid_opts:
  assumes "checker req = Some chk"
    and "os = ApplyDefaultOpts s (opts req)"
    and "RunInterval os <s MinRunInterval (Opts s) \<or> MaxTimeout (Opts s) <s Timeout os"
  shows "Timeout os = (if Timeout (opts req) = 0 then DefaultTimeout (Opts s)
                       else Timeout (opts req))
       \<and> RunInterval os = (if RunInterval (opts req) = 0 then DefaultRunInterval (Opts s)
                       else RunInterval (opts req))
       \<and> Register s req
          = (Some (multiError
               (invalid_health_checker_opts (Check.ID (check req)) os
                 # (if RunInterval os <s MinRunInterval (Opts s)
                    then [ErrRunIntervalTooFrequent] else [])
                 @ (if MaxTimeout (Opts s) <s Timeout os
                    then [ErrRunTimeoutTooHigh] else []))),
             s, [])"
proof (intro conjI)
  show "Timeout os = (if Timeout (opts req) = 0 then DefaultTimeout (Opts s)
                       else Timeout (opts req))"
    using assms(2) by (simp add: ApplyDefaultOpts_def Let_def)
  show "RunInterval os = (if RunInterval (opts req) = 0 then DefaultRunInterval (Opts s)
                       else RunInterval (opts req))"
    using assms(2) by (simp add: ApplyDefaultOpts_def Let_def)
  show "Register s req
          = (Some (multiError
               (invalid_health_checker_opts (Check.ID (check req)) os
                 # (if RunInterval os <s MinRunInterval (Opts s)
                    then [ErrRunIntervalTooFrequent] else [])
                 @ (if MaxTimeout (Opts s) <s Timeout os
                    then [ErrRunTimeoutTooHigh] else []))),
             s, [])"
    using assms(1,3) unfolding assms(2)
    by (auto simp: Register_def ValidateOpts_def Let_def)
qed

theorem Register_invalid_opts_witness:
  "checker ex_req_bad = Some always_green
   \<and> (RunInterval (ApplyDefaultOpts (newService ex_opts) (opts ex_req_bad))
        <s MinRunInterval (Opts (newService ex_opts))
      \<or> MaxTimeout (Opts (newService ex_opts))
        <s Timeout (ApplyDefaultOpts (newService ex_opts) (opts ex_req_bad)))
   \<and> Register (newService ex_opts) ex_req_bad
       = (Some (multiError
            [invalid_health_checker_opts ''db'' \<lparr>Timeout = 40, RunInterval = 1\<rparr>,
             ErrRunIntervalTooFrequent, ErrRunTimeoutTooHigh]),
          newService ex_opts, [])"
proof -
  have os: "ApplyDefaultOpts (newService ex_opts) (opts ex_req_bad)
              = \<lparr>Timeout = 40, RunInterval = 1\<rparr>"
    by (simp add: ApplyDefaultOpts_def ex_req_bad_def Let_def)
  have mn: "MinRunInterval (Opts (newService ex_opts)) = 10"
    and mx: "MaxTimeout (Opts (newService ex_opts)) = 30"
    by (simp_all add: newService_def ex_opts_def)
  have c: "checker ex_req_bad = Some always_green" by (simp add: ex_req_bad_def)
  have v: "RunInterval (ApplyDefaultOpts (newService ex_opts) (opts ex_req_bad))
        <s MinRunInterval (Opts (newService ex_opts))
      \<or> MaxTimeout (Opts (newService ex_opts))
        <s Timeout (ApplyDefaultOpts (newService ex_opts) (opts ex_req_bad))"
    by (simp add: os mn mx word_sless_alt)
  have "opts ex_req_bad = \<lparr>Timeout = 40, RunInterval = 1\<rparr>"
    and "Check.ID (check ex_req_bad) = ''db''"
    by (simp_all add: ex_req_bad_def ex_check_def)
  with Register_invalid_opts [OF c refl v] c v show ?thesis
    by (simp add: os mn mx word_sless_alt)
qed

text \<open>
  C5 as stated fails: a request without a checker function whose RunInterval is below
  the minimum is rejected by the earlier guard; its error is the nil-checker error and
  holds no \<open>ErrRunIntervalTooFrequent\<close>.
\<close>

theorem Register_invalid_opts_counterexample:
  "RunInterval (ApplyDefaultOpts (newService ex_opts) (opts ex_req_nil))
      <s MinRunInterval (Opts (newService ex_opts))
   \<and> Register (newService ex_opts) ex_req_nil
       = (Some (multiError [errors_New ''db'', ErrNilChecker]), newService ex_opts, [])
   \<and> ErrRunIntervalTooFrequent \<notin> set [errors_New ''db'', ErrNilChecker]"
  by (simp add: Register_def ex_req_nil_def ex_check_def ApplyDefaultOpts_def newService_def
        ex_opts_def Let_def word_sless_alt)

section \<open>The coordinator loop\<close>

lemma run_Cons:
  "c \<noteq> SelStop \<Longrightarrow> fst (run s (c # cs)) = fst (run (fst (handle s c)) cs)"
  by (cases c) (simp_all add: split_beta)

lemma run_Cons_returned:
  "c \<noteq> SelStop \<Longrightarrow> snd (snd (run s (c # cs))) = snd (snd (run (fst (handle s c)) cs))"
  by (cases c) (simp_all add: split_beta)

text \<open>What every case of the loop preserves holds of the state \<open>run\<close> ends in.\<close>

lemma run_invariant:
  assumes init: "P s" and step: "\<And>s c. P s \<Longrightarrow> P (fst (handle s c))"
  shows "P (fst (run s cs))"
  using init
proof (induction cs arbitrary: s)
  case Nil
  then show ?case by simp
next
  case (Cons c cs)
  show ?case
  proof (cases "c = SelStop")
    case True
    with Cons show ?thesis by simp
  next
    case False
    from Cons.prems have "P (fst (handle s c))" by (rule step)
    then have "P (fst (run (fst (handle s c)) cs))" by (rule Cons.IH)
    with False show ?thesis by (simp add: run_Cons)
  qed
qed

lemma Register_frame:
  "stop (fst (snd (Register s req))) = stop s"
  "runResults (fst (snd (Register s req))) = runResults s"
  "overallHealth (fst (snd (Register s req))) = overallHealth s"
  "subscriptionsForOverallHealthChanges (fst (snd (Register s req)))
     = subscriptionsForOverallHealthChanges s"
  by (simp_all add: Register_def Let_def split: option.splits)

lemma handle_stop: "stop (fst (handle s c)) = stop s"
  by (cases c)
     (simp_all add: Register_frame updateOverallHealth_def SubscribeForRegisteredChecks_def
        SubscribeForCheckResults_def SubscribeForOverallHealthChanges_def Let_def
        split_beta)

lemma handle_updates_overallHealth:
  "overallHealth s = OverallHealth s \<Longrightarrow>
     overallHealth (fst (handle s c)) = OverallHealth (fst (handle s c))"
  by (cases c)
     (simp_all add: Register_frame OverallHealth_def updateOverallHealth_def
        SubscribeForRegisteredChecks_def SubscribeForCheckResults_def
        SubscribeForOverallHealthChanges_def Let_def split_beta)

lemma handle_keeps_subscriber:
  "ch \<in> set (subscriptionsForOverallHealthChanges s) \<Longrightarrow>
     ch \<in> set (subscriptionsForOverallHealthChanges (fst (handle s c)))"
  by (cases c)
     (simp_all add: Register_frame updateOverallHealth_def
        SubscribeForRegisteredChecks_def SubscribeForCheckResults_def
        SubscribeForOverallHealthChanges_def Let_def split_beta)

lemma fold_max_ge: "a \<le> fold max cs (a :: nat)"
proof (induction cs arbitrary: a)
  case Nil
  show ?case by simp
next
  case (Cons c cs)
  have "max c a \<le> fold max cs (max c a)" by (rule Cons.IH)
  then show ?case by simp
qed

lemma fold_max_member: "c \<in> set cs \<Longrightarrow> c \<le> fold max cs (a :: nat)"
proof (induction cs arbitrary: a)
  case Nil
  then show ?case by simp
next
  case (Cons x cs)
  show ?case
  proof (cases "c = x")
    case True
    have "max x a \<le> fold max cs (max x a)" by (rule fold_max_ge)
    with True show ?thesis by simp
  next
    case False
    with Cons.prems have "c \<in> set cs" by simp
    then show ?thesis by (simp add: Cons.IH)
  qed
qed

lemma new_chan_fresh: "new_chan cs \<notin> set cs"
proof
  assume "new_chan cs \<in> set cs"
  then have "new_chan cs \<le> fold max cs 0" by (rule fold_max_member)
  then show False by (simp add: new_chan_def)
qed

lemma run_returns: "stop s \<Longrightarrow> SelStop \<in> set cs \<Longrightarrow> snd (snd (run s cs))"
proof (induction cs arbitrary: s)
  case Nil
  then show ?case by simp
next
  case (Cons c cs)
  show ?case
  proof (cases "c = SelStop")
    case True
    with Cons.prems show ?thesis by simp
  next
    case False
    with Cons.prems have m: "SelStop \<in> set cs" by simp
    from Cons.prems have "stop (fst (handle s c))" by (simp add: handle_stop)
    then have "snd (snd (run (fst (handle s c)) cs))" using m by (rule Cons.IH)
    with False show ?thesis by (simp add: run_Cons_returned)
  qed
qed

text \<open>
  C6. Processing an incoming Result stores it under its ID, replacing what was there and
  leaving the other entries alone; the published overall health becomes the value
  computed from the store that now holds the Result; and a status is sent to the
  overall-health subscribers, to each of them, only when that value differs from the one
  published before. The Result itself goes to the result subscribers whose filter
  accepts it.
\<close>

theorem handle_result:
  "map_of (runResults (fst (handle s (SelResult r)))) = (map_of (runResults s))(ID r \<mapsto> r)
   \<and> overallHealth (fst (handle s (SelResult r)))
       = OverallHealth (fst (handle s (SelResult r)))
   \<and> snd (handle s (SelResult r))
       = (if overallHealth (fst (handle s (SelResult r))) = overallHealth s then []
          else map (\<lambda>ch. SendStatus ch (overallHealth (fst (handle s (SelResult r)))))
                 (subscriptionsForOverallHealthChanges s))
         @ publishResult s r"
  by (simp add: updateOverallHealth_def OverallHealth_def Let_def publishResult_def
        update_conv' eq_commute [of "overallHealth s"])

lemma subscriber_sent_change:
  assumes "ch \<in> set (subscriptionsForOverallHealthChanges s)"
    and "overallHealth (fst (handle s (SelResult r))) \<noteq> overallHealth s"
  shows "SendStatus ch (overallHealth (fst (handle s (SelResult r))))
           \<in> set (snd (handle s (SelResult r)))"
  using assms
  by (auto simp: updateOverallHealth_def Let_def)

text \<open>
  C7. Subscribing for overall-health changes creates a channel that is none of the
  subscribed ones, already holding the published overall health as its first value when
  it is handed out, and adds it to the subscribers. In every state the loop reaches from
  a new service the published value is the overall health of the store. The channel
  stays subscribed whatever the loop processes afterwards, and whenever a Result
  processed after that changes the overall health, the new value is sent on the channel.
\<close>

theorem SubscribeForOverallHealthChanges_first_value:
  "new_chan (subscriptionsForOverallHealthChanges s)
      \<notin> set (subscriptionsForOverallHealthChanges s)
   \<and> SubscribeForOverallHealthChanges s
       = (s\<lparr>subscriptionsForOverallHealthChanges :=
               new_chan (subscriptionsForOverallHealthChanges s)
                 # subscriptionsForOverallHealthChanges s\<rparr>,
          [ReplyStatusChan (new_chan (subscriptionsForOverallHealthChanges s))
             [overallHealth s]])
   \<and> overallHealth (fst (run (newService os) cs))
       = OverallHealth (fst (run (newService os) cs))
   \<and> new_chan (subscriptionsForOverallHealthChanges s)
       \<in> set (subscriptionsForOverallHealthChanges
                (fst (run (fst (SubscribeForOverallHealthChanges s)) cs')))
   \<and> (overallHealth
         (fst (handle (fst (run (fst (SubscribeForOverallHealthChanges s)) cs'))
                (SelResult r)))
        \<noteq> overallHealth (fst (run (fst (SubscribeForOverallHealthChanges s)) cs'))
      \<longrightarrow> SendStatus (new_chan (subscriptionsForOverallHealthChanges s))
            (overallHealth
               (fst (handle (fst (run (fst (SubscribeForOverallHealthChanges s)) cs'))
                      (SelResult r))))
          \<in> set (snd (handle (fst (run (fst (SubscribeForOverallHealthChanges s)) cs'))
                       (SelResult r))))"
proof (intro conjI impI)
  show fresh: "new_chan (subscriptionsForOverallHealthChanges s)
      \<notin> set (subscriptionsForOverallHealthChanges s)"
    by (rule new_chan_fresh)
  then show sub: "SubscribeForOverallHealthChanges s
       = (s\<lparr>subscriptionsForOverallHealthChanges :=
               new_chan (subscriptionsForOverallHealthChanges s)
                 # subscriptionsForOverallHealthChanges s\<rparr>,
          [ReplyStatusChan (new_chan (subscriptionsForOverallHealthChanges s))
             [overallHealth s]])"
    by (simp add: SubscribeForOverallHealthChanges_def Let_def List.insert_def)
  have "overallHealth (newService os) = OverallHealth (newService os)"
    by (simp add: newService_def OverallHealth_def)
  then show "overallHealth (fst (run (newService os) cs))
       = OverallHealth (fst (run (newService os) cs))"
    by (rule run_invariant [where P = "\<lambda>s. overallHealth s = OverallHealth s"])
       (rule handle_updates_overallHealth)
  have "new_chan (subscriptionsForOverallHealthChanges s)
      \<in> set (subscriptionsForOverallHealthChanges (fst (SubscribeForOverallHealthChanges s)))"
    by (simp add: sub)
  then show member: "new_chan (subscriptionsForOverallHealthChanges s)
       \<in> set (subscriptionsForOverallHealthChanges
                (fst (run (fst (SubscribeForOverallHealthChanges s)) cs')))"
    by (rule run_invariant
          [where P = "\<lambda>s'. new_chan (subscriptionsForOverallHealthChanges s)
                          \<in> set (subscriptionsForOverallHealthChanges s')"])
       (rule handle_keeps_subscriber)
  assume "overallHealth
         (fst (handle (fst (run (fst (SubscribeForOverallHealthChanges s)) cs'))
                (SelResult r)))
        \<noteq> overallHealth (fst (run (fst (SubscribeForOverallHealthChanges s)) cs'))"
  with member show "SendStatus (new_chan (subscriptionsForOverallHealthChanges s))
            (overallHealth
               (fst (handle (fst (run (fst (SubscribeForOverallHealthChanges s)) cs'))
                      (SelResult r))))
          \<in> set (snd (handle (fst (run (fst (SubscribeForOverallHealthChanges s)) cs'))
                       (SelResult r)))"
    by (rule subscriber_sent_change)
qed

text \<open>
  A channel subscribed on a new service, then a first Result that is Red: the overall
  health changes from Green to Red and Red is sent on the channel.
\<close>

theorem SubscribeForOverallHealthChanges_first_value_witness:
  "overallHealth
      (fst (handle (fst (run (fst (SubscribeForOverallHealthChanges (newService ex_opts))) []))
             (SelResult (ex_result ''db'' Red))))
     \<noteq> overallHealth (fst (run (fst (SubscribeForOverallHealthChanges (newService ex_opts))) []))
   \<and> new_chan (subscriptionsForOverallHealthChanges (newService ex_opts)) = 1
   \<and> SendStatus 1 Red
       \<in> set (snd (handle
                    (fst (run (fst (SubscribeForOverallHealthChanges (newService ex_opts))) []))
                    (SelResult (ex_result ''db'' Red))))"
  using SubscribeForOverallHealthChanges_first_value
    [of "newService ex_opts" ex_opts "[]" "[]" "ex_result ''db'' Red"]
  by (simp add: newService_def SubscribeForOverallHealthChanges_def new_chan_def Let_def
        updateOverallHealth_def OverallHealth_def ex_result_def)

text \<open>
  Calls that do not overlap: a call alone never panics and leaves the stop channel
  closed, a call on a closed channel changes nothing, and two callers that take their
  steps one after the other both return. With the stop channel closed, the loop returns
  when its \<open>select\<close> takes the stop case, processing nothing after it; nothing the
  loop processes reopens the channel; and a run whose \<open>select\<close> takes the stop case
  at some point has returned.
\<close>

lemma TriggerShutdown_sequential:
  "TriggerShutdown s = Some (s\<lparr>stop := True\<rparr>)
   \<and> Option.bind (TriggerShutdown s) TriggerShutdown = TriggerShutdown s
   \<and> TriggerShutdown (s\<lparr>stop := True\<rparr>) = Some (s\<lparr>stop := True\<rparr>)
   \<and> TriggerShutdown_calls s [AtSelect, AtSelect] [0, 0, 1, 1]
       = (s\<lparr>stop := True\<rparr>, [Returned, Returned])
   \<and> run (s\<lparr>stop := True\<rparr>) (SelStop # cs) = (s\<lparr>stop := True\<rparr>, [], True)
   \<and> stop (fst (run (s\<lparr>stop := True\<rparr>) cs))
   \<and> (SelStop \<in> set cs \<longrightarrow> snd (snd (run (s\<lparr>stop := True\<rparr>) cs)))"
proof (intro conjI impI)
  show one: "TriggerShutdown s = Some (s\<lparr>stop := True\<rparr>)"
    by (cases "stop s") (simp_all add: TriggerShutdown_def close_chan_def)
  show two: "TriggerShutdown (s\<lparr>stop := True\<rparr>) = Some (s\<lparr>stop := True\<rparr>)"
    by (simp add: TriggerShutdown_def)
  from one two show "Option.bind (TriggerShutdown s) TriggerShutdown = TriggerShutdown s"
    by simp
  show "TriggerShutdown_calls s [AtSelect, AtSelect] [0, 0, 1, 1]
       = (s\<lparr>stop := True\<rparr>, [Returned, Returned])"
    by (cases "stop s") (simp_all add: close_chan_def)
  show "run (s\<lparr>stop := True\<rparr>) (SelStop # cs) = (s\<lparr>stop := True\<rparr>, [], True)"
    by simp
  have st: "stop (s\<lparr>stop := True\<rparr>)" by simp
  then show "stop (fst (run (s\<lparr>stop := True\<rparr>) cs))"
    by (rule run_invariant [where P = stop]) (simp add: handle_stop)
  assume "SelStop \<in> set cs"
  with st show "snd (snd (run (s\<lparr>stop := True\<rparr>) cs))" by (rule run_returns)
qed

text \<open>
  C9. A call of \<open>TriggerShutdown\<close> after the first is to change nothing and not
  to panic. The code tests the stop channel and closes it in two steps, so it misses
  this for callers that overlap: when two callers on an open stop
  channel both take the \<open>select\<close> before either closes, both reach
  \<open>close(s.stop)\<close>; the first closes the channel and returns, the second panics.
\<close>

theorem TriggerShutdown_overlapping_calls_panic:
  "stop (newService ex_opts) = False
   \<and> TriggerShutdown_calls (newService ex_opts) [AtSelect, AtSelect] [0, 1]
       = (newService ex_opts, [AtClose, AtClose])
   \<and> TriggerShutdown_calls (newService ex_opts) [AtSelect, AtSelect] [0, 1, 0, 1]
       = ((newService ex_opts)\<lparr>stop := True\<rparr>, [Returned, Panicked])"
  by (simp add: newService_def close_chan_def)

end
